theory Spec2Isabelle
  imports Main "HOL-Library.Word"
begin

section \<open>Go values used by the functools package\<close>

subsection \<open>Panics\<close>

text \<open>
  The run-time panics that the modelled code can raise. An unrecovered panic, in whatever
  goroutine it happens, terminates the whole Go program; a computation that may end this
  way returns \<open>panic + 'a\<close>, with \<open>Inl\<close> for the panic.
  \<^item> \<open>Makechan_size_out_of_range\<close>: \<^verbatim>\<open>make(chan T, n)\<close> with \<open>n < 0\<close>;
  \<^item> \<open>Slice_bounds_out_of_range\<close>: \<^verbatim>\<open>s[lo:hi]\<close> outside the slice;
  \<^item> \<open>Close_of_closed_channel\<close>: \<^verbatim>\<open>close(ch)\<close> on a channel that is closed already;
  \<^item> \<open>Generator_panic\<close>: a panic raised by the caller's generator function.
\<close>

datatype panic =
    Makechan_size_out_of_range
  | Slice_bounds_out_of_range
  | Close_of_closed_channel
  | Generator_panic

definition and_then :: "panic + 'a \<Rightarrow> ('a \<Rightarrow> panic + 'b) \<Rightarrow> panic + 'b" where
  "and_then r k = (case r of Inl p \<Rightarrow> Inl p | Inr v \<Rightarrow> k v)"

subsection \<open>Slices\<close>

text \<open>
  A Go slice value is either \<^verbatim>\<open>nil\<close> or a sequence of elements, which may be empty:
  \<^verbatim>\<open>var result []T\<close> is \<open>Nil_slice\<close>, \<^verbatim>\<open>[]T{}\<close> is \<open>Items []\<close>. Both have
  length zero, and \<^verbatim>\<open>s == nil\<close> tells them apart. Backing arrays and capacities are
  not modelled.
\<close>

datatype 'a goslice = Nil_slice | Items "'a list"

fun elems :: "'a goslice \<Rightarrow> 'a list" where
  "elems Nil_slice = []"
| "elems (Items xs) = xs"

fun is_nil :: "'a goslice \<Rightarrow> bool" where
  "is_nil Nil_slice = True"
| "is_nil (Items xs) = False"

definition len :: "'a goslice \<Rightarrow> int" where
  "len s = int (length (elems s))"

text \<open>\<^verbatim>\<open>append(s, v)\<close>: the result is never nil.\<close>

definition append1 :: "'a goslice \<Rightarrow> 'a \<Rightarrow> 'a goslice" where
  "append1 s v = Items (elems s @ [v])"

text \<open>
  The slice expression \<^verbatim>\<open>s[lo:hi]\<close>. Go panics unless \<open>0 \<le> lo \<le> hi \<le> cap(s)\<close>; with
  capacities left out, the bound used here is the length. A nil slice resliced at
  \<open>[0:0]\<close> stays nil.
\<close>

definition slice_expr :: "'a goslice \<Rightarrow> int \<Rightarrow> int \<Rightarrow> panic + 'a goslice" where
  "slice_expr s lo hi =
     (if lo < 0 \<or> hi < lo \<or> len s < hi then Inl Slice_bounds_out_of_range
      else case s of
             Nil_slice \<Rightarrow> Inr Nil_slice
           | Items xs \<Rightarrow> Inr (Items (take (nat (hi - lo)) (drop (nat lo) xs))))"

subsection \<open>Dynamically typed values\<close>

text \<open>
  Values of the interface type \<^verbatim>\<open>any\<close>: a value of a concrete type boxed with that
  type, or the nil interface, which has no dynamic type. The universe holds the types
  \<^verbatim>\<open>int\<close> (64 bits), \<^verbatim>\<open>string\<close> and \<^verbatim>\<open>bool\<close>.
\<close>

datatype gotype = Int_type | String_type | Bool_type

datatype any_val = Int_val "64 word" | String_val string | Bool_val bool | Nil_val

fun dyn_type :: "any_val \<Rightarrow> gotype option" where
  "dyn_type (Int_val i) = Some Int_type"
| "dyn_type (String_val s) = Some String_type"
| "dyn_type (Bool_val b) = Some Bool_type"
| "dyn_type Nil_val = None"

text \<open>
  The two-result type assertion \<^verbatim>\<open>casted, ok := v.(T)\<close> for a concrete type \<open>T\<close>:
  \<open>Some casted\<close> when \<open>ok\<close>, that is when the dynamic type of \<open>v\<close> is \<open>T\<close>, and
  \<open>None\<close> otherwise. This form never panics. A value of static type \<open>T\<close> is kept in
  its boxed form.
\<close>

definition type_assert :: "gotype \<Rightarrow> any_val \<Rightarrow> any_val option" where
  "type_assert T v = (if dyn_type v = Some T then Some v else None)"

subsection \<open>Channels\<close>

text \<open>
  Every channel of the package has one producer, the goroutine spawned by the function
  that makes the channel, and at most one consumer, the next stage or the terminal
  operation. Delivery is first in, first out, so what the consumer receives is what the
  producer sends, in that order, whatever the capacity and the scheduling. A channel is
  therefore described by the sequence of values its producer sends on it while the
  consumer keeps receiving (\<open>sent\<close>), the capacity it was made with (\<open>capacity\<close>), and
  whether the producer closes it after the last value (\<open>closed\<close>). A \<^verbatim>\<open>range\<close> loop
  over the channel receives the values of \<open>sent\<close> in order and ends after them if and only
  if the channel is closed; over a channel that is never closed it blocks forever.
\<close>

record 'a chan =
  sent :: "'a list"
  capacity :: int
  closed :: bool

text \<open>\<^verbatim>\<open>make(chan T)\<close>: an unbuffered channel.\<close>

definition make_chan :: "'a chan" where
  "make_chan = \<lparr>sent = [], capacity = 0, closed = False\<rparr>"

text \<open>
  \<^verbatim>\<open>make(chan T, n)\<close>: panics when \<open>n\<close> is negative. The sizes are Go's \<^verbatim>\<open>int\<close>,
  which the code only compares and passes on; the limit that the available memory puts
  on \<open>n\<close> is not modelled.
\<close>

definition make_chan_sized :: "int \<Rightarrow> panic + 'a chan" where
  "make_chan_sized n =
     (if n < 0 then Inl Makechan_size_out_of_range
      else Inr \<lparr>sent = [], capacity = n, closed = False\<rparr>)"

text \<open>
  \<^verbatim>\<open>ch <- v\<close> and \<^verbatim>\<open>close(ch)\<close> on an open channel. The package's own goroutines
  send on and close only the channel they were spawned with, which nothing else closes;
  a generator is caller code and may have closed it, which is the case
  \<open>deferred_close\<close> distinguishes.
\<close>

definition send :: "'a chan \<Rightarrow> 'a \<Rightarrow> 'a chan" where
  "send ch v = ch\<lparr>sent := sent ch @ [v]\<rparr>"

definition close_chan :: "'a chan \<Rightarrow> 'a chan" where
  "close_chan ch = ch\<lparr>closed := True\<rparr>"

subsection \<open>Calls of caller code and deferred close\<close>

text \<open>
  How the body of a goroutine ends, with the channel as the body leaves it: it returns,
  it panics (with the panic), or it never returns (it loops or blocks forever).
\<close>

datatype 'a ending = Returns 'a | Panics panic 'a | Never_returns 'a

text \<open>
  A generator \<^verbatim>\<open>func(chan T)\<close> is caller code: given the channel, it sends values on it
  and ends in one of the three ways.
\<close>

type_synonym 'a generator = "'a chan \<Rightarrow> 'a chan ending"

text \<open>
  \<^verbatim>\<open>defer close(ch)\<close>. Go runs a deferred call when the surrounding function returns and
  also when it panics, before the panic propagates further; it does not run while the
  function has not ended. Closing a closed channel is itself a panic; when the function
  was panicking already, the first panic is the one kept here.
\<close>

fun deferred_close :: "'a chan ending \<Rightarrow> 'a chan ending" where
  "deferred_close (Returns ch) =
     (if closed ch then Panics Close_of_closed_channel ch else Returns (close_chan ch))"
| "deferred_close (Panics p ch) =
     (if closed ch then Panics p ch else Panics p (close_chan ch))"
| "deferred_close (Never_returns ch) = Never_returns ch"

section \<open>The three collections\<close>

text \<open>\<^verbatim>\<open>iterable\<close> (the slice collection), \<^verbatim>\<open>streamable\<close> and \<^verbatim>\<open>bufferedStream\<close>.\<close>

record 'a iterable =
  items :: "'a goslice"

record 'a streamable =
  stream :: "'a chan"

record 'a bufferedStream =
  stream :: "'a chan"
  BufferSize :: int

subsection \<open>Loops shared by the goroutines\<close>

text \<open>
  The functions given to Pipe and Filter are taken to return for every element. Each
  loop below runs over the values its goroutine receives from the upstream channel, in
  the order of receipt, and threads the downstream channel through its sends.
\<close>

text \<open>\<^verbatim>\<open>for _, v := range items { ch <- v }\<close>\<close>

fun send_items :: "'a list \<Rightarrow> 'a chan \<Rightarrow> 'a chan" where
  "send_items [] ch = ch"
| "send_items (v # vs) ch = send_items vs (send ch v)"

text \<open>\<^verbatim>\<open>for v := range s.stream { out <- fn(v) }\<close>, over the values received.\<close>

fun pipe_loop :: "('a \<Rightarrow> any_val) \<Rightarrow> 'a list \<Rightarrow> any_val chan \<Rightarrow> any_val chan" where
  "pipe_loop fn [] out = out"
| "pipe_loop fn (v # vs) out = pipe_loop fn vs (send out (fn v))"

text \<open>\<^verbatim>\<open>for v := range s.stream { if fn(v) { out <- v } }\<close>\<close>

fun filter_loop :: "('a \<Rightarrow> bool) \<Rightarrow> 'a list \<Rightarrow> 'a chan \<Rightarrow> 'a chan" where
  "filter_loop fn [] out = out"
| "filter_loop fn (v # vs) out =
     filter_loop fn vs (if fn v then send out v else out)"

text \<open>\<^verbatim>\<open>for v := range s.stream { if casted, ok := v.(StreamType); ok { out <- casted } }\<close>\<close>

fun recast_loop :: "gotype \<Rightarrow> any_val list \<Rightarrow> any_val chan \<Rightarrow> any_val chan" where
  "recast_loop T [] out = out"
| "recast_loop T (v # vs) out =
     recast_loop T vs (case type_assert T v of Some casted \<Rightarrow> send out casted | None \<Rightarrow> out)"

text \<open>\<^verbatim>\<open>for v := range s.stream { result = append(result, v) }\<close>\<close>

fun collect_loop :: "'a list \<Rightarrow> 'a goslice \<Rightarrow> 'a goslice" where
  "collect_loop [] result = result"
| "collect_loop (v # vs) result = collect_loop vs (append1 result v)"

text \<open>
  A goroutine \<^verbatim>\<open>defer close(out); for v := range in { ... }\<close> whose loop body cannot
  panic: the loop ends, and the deferred close runs, exactly when \<open>in\<close> is closed.
\<close>

definition close_after :: "'b chan \<Rightarrow> 'a chan \<Rightarrow> 'a chan" where
  "close_after inp out = (if closed inp then close_chan out else out)"

text \<open>
  A goroutine \<^verbatim>\<open>defer close(ch); generator(ch)\<close>, and what the program is left with: the
  channel, or the panic that ended the program.
\<close>

definition generator_worker :: "'a generator \<Rightarrow> 'a chan \<Rightarrow> 'a chan ending" where
  "generator_worker generator ch = deferred_close (generator ch)"

fun survive :: "'a chan ending \<Rightarrow> panic + 'a chan" where
  "survive (Returns ch) = Inr ch"
| "survive (Never_returns ch) = Inr ch"
| "survive (Panics p ch) = Inl p"

subsection \<open>streamable (streams.go)\<close>

definition Streamify :: "'a goslice \<Rightarrow> 'a streamable" where
  "Streamify its =
     (let ch = make_chan
      in \<lparr>streamable.stream = close_chan (send_items (elems its) ch)\<rparr>)"

definition CreateStream :: "'a generator \<Rightarrow> panic + 'a streamable" where
  "CreateStream generator =
     (let ch = make_chan
      in and_then (survive (generator_worker generator ch))
           (\<lambda>ch'. Inr \<lparr>streamable.stream = ch'\<rparr>))"

definition streamable_Pipe :: "'a streamable \<Rightarrow> ('a \<Rightarrow> any_val) \<Rightarrow> any_val streamable" where
  "streamable_Pipe s fn =
     (let out = make_chan
      in \<lparr>streamable.stream =
           close_after (streamable.stream s) (pipe_loop fn (sent (streamable.stream s)) out)\<rparr>)"

definition streamable_Filter :: "'a streamable \<Rightarrow> ('a \<Rightarrow> bool) \<Rightarrow> 'a streamable" where
  "streamable_Filter s fn =
     (let out = make_chan
      in \<lparr>streamable.stream =
           close_after (streamable.stream s) (filter_loop fn (sent (streamable.stream s)) out)\<rparr>)"

text \<open>\<open>None\<close>: the call never returns, because the channel is never closed.\<close>

definition streamable_ToSlice :: "'a streamable \<Rightarrow> 'a goslice option" where
  "streamable_ToSlice s =
     (if closed (streamable.stream s)
      then Some (collect_loop (sent (streamable.stream s)) Nil_slice)
      else None)"

text \<open>The struct literal sets \<open>stream\<close> only: \<open>BufferSize\<close> keeps its zero value.\<close>

definition streamable_ToBufferedStream :: "'a streamable \<Rightarrow> int \<Rightarrow> panic + 'a bufferedStream" where
  "streamable_ToBufferedStream s bufferSize =
     and_then (make_chan_sized bufferSize)
       (\<lambda>ch. Inr \<lparr>bufferedStream.stream =
                    close_after (streamable.stream s) (send_items (sent (streamable.stream s)) ch),
                  BufferSize = 0\<rparr>)"

definition RecastStream :: "gotype \<Rightarrow> any_val streamable \<Rightarrow> any_val streamable" where
  "RecastStream StreamType s =
     (let out = make_chan
      in \<lparr>streamable.stream =
           close_after (streamable.stream s)
             (recast_loop StreamType (sent (streamable.stream s)) out)\<rparr>)"

subsection \<open>bufferedStream (bufferedStreams.go)\<close>

definition StreamifyWithBuffer :: "'a goslice \<Rightarrow> int \<Rightarrow> panic + 'a bufferedStream" where
  "StreamifyWithBuffer its bufferSize =
     and_then (make_chan_sized bufferSize)
       (\<lambda>ch. Inr \<lparr>bufferedStream.stream = close_chan (send_items (elems its) ch),
                  BufferSize = bufferSize\<rparr>)"

definition CreateBufferedStream :: "'a generator \<Rightarrow> int \<Rightarrow> panic + 'a bufferedStream" where
  "CreateBufferedStream generator bufferSize =
     and_then (make_chan_sized bufferSize)
       (\<lambda>ch. and_then (survive (generator_worker generator ch))
          (\<lambda>ch'. Inr \<lparr>bufferedStream.stream = ch', BufferSize = bufferSize\<rparr>))"

definition bufferedStream_Pipe ::
  "'a bufferedStream \<Rightarrow> ('a \<Rightarrow> any_val) \<Rightarrow> panic + any_val bufferedStream" where
  "bufferedStream_Pipe s fn =
     and_then (make_chan_sized (BufferSize s))
       (\<lambda>out. Inr \<lparr>bufferedStream.stream =
                     close_after (bufferedStream.stream s)
                       (pipe_loop fn (sent (bufferedStream.stream s)) out),
                   BufferSize = BufferSize s\<rparr>)"

definition bufferedStream_Filter ::
  "'a bufferedStream \<Rightarrow> ('a \<Rightarrow> bool) \<Rightarrow> panic + 'a bufferedStream" where
  "bufferedStream_Filter s fn =
     and_then (make_chan_sized (BufferSize s))
       (\<lambda>out. Inr \<lparr>bufferedStream.stream =
                     close_after (bufferedStream.stream s)
                       (filter_loop fn (sent (bufferedStream.stream s)) out),
                   BufferSize = BufferSize s\<rparr>)"

definition bufferedStream_ToSlice :: "'a bufferedStream \<Rightarrow> 'a goslice option" where
  "bufferedStream_ToSlice s =
     (if closed (bufferedStream.stream s)
      then Some (collect_loop (sent (bufferedStream.stream s)) Nil_slice)
      else None)"

definition bufferedStream_ToStream :: "'a bufferedStream \<Rightarrow> 'a streamable" where
  "bufferedStream_ToStream s =
     (let ch = make_chan
      in \<lparr>streamable.stream =
           close_after (bufferedStream.stream s)
             (send_items (sent (bufferedStream.stream s)) ch)\<rparr>)"

definition RecastBufferedStream ::
  "gotype \<Rightarrow> any_val bufferedStream \<Rightarrow> panic + any_val bufferedStream" where
  "RecastBufferedStream StreamType s =
     and_then (make_chan_sized (BufferSize s))
       (\<lambda>out. Inr \<lparr>bufferedStream.stream =
                     close_after (bufferedStream.stream s)
                       (recast_loop StreamType (sent (bufferedStream.stream s)) out),
                   BufferSize = BufferSize s\<rparr>)"

subsection \<open>iterable (the slice collection)\<close>

definition Slicefy :: "'a goslice \<Rightarrow> 'a iterable" where
  "Slicefy its = \<lparr>items = its\<rparr>"

definition iterable_Slice :: "'a iterable \<Rightarrow> int \<Rightarrow> int \<Rightarrow> panic + 'a iterable" where
  "iterable_Slice c start end' =
     (if start < 0 \<or> end' > len (items c) \<or> start > end'
      then Inr \<lparr>items = Items []\<rparr>
      else and_then (slice_expr (items c) start end') (\<lambda>its. Inr \<lparr>items = its\<rparr>))"

definition iterable_ToBufferedStream :: "'a iterable \<Rightarrow> int \<Rightarrow> panic + 'a bufferedStream" where
  "iterable_ToBufferedStream c bufferSize =
     and_then (make_chan_sized bufferSize)
       (\<lambda>ch. Inr \<lparr>bufferedStream.stream = close_chan (send_items (elems (items c)) ch),
                  BufferSize = 0\<rparr>)"

subsection \<open>Generators\<close>

text \<open>
  The generator of the package's tests and README, for the values \<open>vs\<close>:
  \<^verbatim>\<open>func(ch chan T) { for _, v := range vs { ch <- v } }\<close>, and one that panics after
  sending them: \<^verbatim>\<open>func(ch chan T) { for _, v := range vs { ch <- v }; panic("...") }\<close>.
\<close>

definition sending :: "'a list \<Rightarrow> 'a generator" where
  "sending vs ch = Returns (send_items vs ch)"

definition sending_then_panic :: "'a list \<Rightarrow> 'a generator" where
  "sending_then_panic vs ch = Panics Generator_panic (send_items vs ch)"

section \<open>Properties of the loops\<close>

text \<open>
  Each loop only appends to what its output channel holds, and leaves the capacity and the
  closed flag alone. The output is generalised in every induction, since the recursive
  call runs on the channel after the send.
\<close>

lemma send_items_eq: "send_items vs ch = ch\<lparr>sent := sent ch @ vs\<rparr>"
  by (induction vs arbitrary: ch) (simp_all add: send_def)

lemma pipe_loop_eq: "pipe_loop fn vs out = out\<lparr>sent := sent out @ map fn vs\<rparr>"
  by (induction vs arbitrary: out) (simp_all add: send_def)

lemma filter_loop_eq: "filter_loop fn vs out = out\<lparr>sent := sent out @ filter fn vs\<rparr>"
  by (induction vs arbitrary: out) (simp_all add: send_def)

lemma recast_loop_eq:
  "recast_loop T vs out = out\<lparr>sent := sent out @ filter (\<lambda>v. dyn_type v = Some T) vs\<rparr>"
  by (induction vs arbitrary: out) (simp_all add: send_def type_assert_def)

lemma collect_loop_eq:
  "collect_loop vs result = (if vs = [] then result else Items (elems result @ vs))"
  by (induction vs arbitrary: result) (simp_all add: append1_def)

lemma elems_collect_loop: "elems (collect_loop vs result) = elems result @ vs"
  by (simp add: collect_loop_eq)

lemma make_chan_sized_ok:
  "0 \<le> n \<Longrightarrow> make_chan_sized n = Inr \<lparr>sent = [], capacity = n, closed = False\<rparr>"
  by (simp add: make_chan_sized_def)

lemma and_then_Inr: "and_then (Inr v) k = k v"
  by (simp add: and_then_def)

text \<open>What each stage leaves on its channel.\<close>

lemma Streamify_stream:
  "streamable.stream (Streamify its) = \<lparr>sent = elems its, capacity = 0, closed = True\<rparr>"
  by (simp add: Streamify_def Let_def make_chan_def send_items_eq close_chan_def)

lemma StreamifyWithBuffer_ok:
  "0 \<le> n \<Longrightarrow>
   StreamifyWithBuffer its n =
     Inr \<lparr>bufferedStream.stream = \<lparr>sent = elems its, capacity = n, closed = True\<rparr>,
          BufferSize = n\<rparr>"
  by (simp add: StreamifyWithBuffer_def make_chan_sized_ok and_then_Inr send_items_eq
      close_chan_def)

lemma streamable_Pipe_stream:
  "streamable.stream (streamable_Pipe s fn) =
     \<lparr>sent = map fn (sent (streamable.stream s)), capacity = 0,
      closed = closed (streamable.stream s)\<rparr>"
  by (simp add: streamable_Pipe_def Let_def make_chan_def pipe_loop_eq close_after_def
      close_chan_def)

lemma bufferedStream_Pipe_ok:
  "0 \<le> BufferSize s \<Longrightarrow>
   bufferedStream_Pipe s fn =
     Inr \<lparr>bufferedStream.stream =
            \<lparr>sent = map fn (sent (bufferedStream.stream s)), capacity = BufferSize s,
             closed = closed (bufferedStream.stream s)\<rparr>,
          BufferSize = BufferSize s\<rparr>"
  by (simp add: bufferedStream_Pipe_def make_chan_sized_ok and_then_Inr pipe_loop_eq
      close_after_def close_chan_def)

lemma CreateStream_sending:
  "CreateStream (sending vs) =
     Inr \<lparr>streamable.stream = \<lparr>sent = vs, capacity = 0, closed = True\<rparr>\<rparr>"
  by (simp add: CreateStream_def Let_def generator_worker_def sending_def make_chan_def
      send_items_eq close_chan_def and_then_Inr)

lemma CreateBufferedStream_sending:
  "0 \<le> n \<Longrightarrow>
   CreateBufferedStream (sending vs) n =
     Inr \<lparr>bufferedStream.stream = \<lparr>sent = vs, capacity = n, closed = True\<rparr>,
          BufferSize = n\<rparr>"
  by (simp add: CreateBufferedStream_def make_chan_sized_ok generator_worker_def sending_def
      send_items_eq close_chan_def and_then_Inr)

section \<open>Transform\<close>

text \<open>
  Claim C1. For every slice \<open>S\<close> and every function \<open>f\<close>, draining with ToSlice the
  pipeline that Pipe(f) makes of a stream built from \<open>S\<close> returns, and what it returns
  holds exactly \<open>map f S\<close>: as many elements as \<open>S\<close>, each the image under \<open>f\<close> of the
  element of \<open>S\<close> at the same position. This holds for the unbuffered stream of
  Streamify and, for every capacity \<open>n \<ge> 0\<close>, for the buffered stream of
  StreamifyWithBuffer, whose operations return \<open>Inr\<close> (no panic).
\<close>

theorem Pipe_drains_to_map:
  "(\<exists>r. streamable_ToSlice (streamable_Pipe (Streamify S) f) = Some r
        \<and> elems r = map f (elems S)
        \<and> len r = len S
        \<and> (\<forall>i < length (elems S). elems r ! i = f (elems S ! i)))
   \<and> (0 \<le> n \<longrightarrow>
        (\<exists>b p r. StreamifyWithBuffer S n = Inr b
           \<and> bufferedStream_Pipe b f = Inr p
           \<and> bufferedStream_ToSlice p = Some r
           \<and> elems r = map f (elems S)
           \<and> len r = len S
           \<and> (\<forall>i < length (elems S). elems r ! i = f (elems S ! i))))"
proof (intro conjI impI)
  let ?r = "collect_loop (map f (elems S)) Nil_slice"
  have r: "elems ?r = map f (elems S)"
    by (simp add: elems_collect_loop)
  have *: "elems ?r = map f (elems S) \<and> len ?r = len S
           \<and> (\<forall>i < length (elems S). elems ?r ! i = f (elems S ! i))"
    unfolding r by (simp add: len_def r)
  have "streamable_ToSlice (streamable_Pipe (Streamify S) f) = Some ?r"
    by (simp add: streamable_ToSlice_def streamable_Pipe_stream Streamify_stream)
  with * show "\<exists>r. streamable_ToSlice (streamable_Pipe (Streamify S) f) = Some r
        \<and> elems r = map f (elems S) \<and> len r = len S
        \<and> (\<forall>i < length (elems S). elems r ! i = f (elems S ! i))"
    by blast
  assume n: "0 \<le> n"
  let ?b = "\<lparr>bufferedStream.stream = \<lparr>sent = elems S, capacity = n, closed = True\<rparr>,
             BufferSize = n\<rparr>"
  let ?p = "\<lparr>bufferedStream.stream = \<lparr>sent = map f (elems S), capacity = n, closed = True\<rparr>,
             BufferSize = n\<rparr>"
  have b: "StreamifyWithBuffer S n = Inr ?b"
    using n by (rule StreamifyWithBuffer_ok)
  have p: "bufferedStream_Pipe ?b f = Inr ?p"
    using n by (simp add: bufferedStream_Pipe_ok)
  have d: "bufferedStream_ToSlice ?p = Some ?r"
    by (simp add: bufferedStream_ToSlice_def)
  from b p d * show "\<exists>b p r. StreamifyWithBuffer S n = Inr b
           \<and> bufferedStream_Pipe b f = Inr p
           \<and> bufferedStream_ToSlice p = Some r
           \<and> elems r = map f (elems S)
           \<and> len r = len S
           \<and> (\<forall>i < length (elems S). elems r ! i = f (elems S ! i))"
    by blast
qed

theorem Pipe_drains_to_map_witness:
  "(0::int) \<le> 3
   \<and> map_option elems
        (streamable_ToSlice
          (streamable_Pipe (Streamify (Items [1, 2, 3, 4 :: 64 word])) (\<lambda>x. Int_val (x * 2))))
      = Some [Int_val 2, Int_val 4, Int_val 6, Int_val 8]
   \<and> (\<exists>b p. StreamifyWithBuffer (Items [1, 2, 3, 4 :: 64 word]) 3 = Inr b
         \<and> bufferedStream_Pipe b (\<lambda>x. Int_val (x * 2)) = Inr p
         \<and> map_option elems (bufferedStream_ToSlice p)
           = Some [Int_val 2, Int_val 4, Int_val 6, Int_val 8])"
  using Pipe_drains_to_map [of "Items [1, 2, 3, 4 :: 64 word]" "\<lambda>x. Int_val (x * 2)" 3]
  by auto

section \<open>Filter\<close>

lemma streamable_Filter_stream:
  "streamable.stream (streamable_Filter s fn) =
     \<lparr>sent = filter fn (sent (streamable.stream s)), capacity = 0,
      closed = closed (streamable.stream s)\<rparr>"
  by (simp add: streamable_Filter_def Let_def make_chan_def filter_loop_eq close_after_def
      close_chan_def)

lemma bufferedStream_Filter_ok:
  "0 \<le> BufferSize s \<Longrightarrow>
   bufferedStream_Filter s fn =
     Inr \<lparr>bufferedStream.stream =
            \<lparr>sent = filter fn (sent (bufferedStream.stream s)), capacity = BufferSize s,
             closed = closed (bufferedStream.stream s)\<rparr>,
          BufferSize = BufferSize s\<rparr>"
  by (simp add: bufferedStream_Filter_def make_chan_sized_ok and_then_Inr filter_loop_eq
      close_after_def close_chan_def)

text \<open>
  Claim C2. For every slice \<open>S\<close> and every predicate \<open>pred\<close>, draining with ToSlice the
  pipeline that Filter(pred) makes of a stream built from \<open>S\<close> returns, and what it
  returns holds exactly the elements of \<open>S\<close> that satisfy \<open>pred\<close>, in their order in
  \<open>S\<close>; its length is the number of elements of \<open>S\<close> that satisfy \<open>pred\<close>, which is at
  most the length of \<open>S\<close>. This holds for the unbuffered stream of Streamify and, for
  every capacity \<open>n \<ge> 0\<close>, for the buffered stream of StreamifyWithBuffer.
\<close>

theorem Filter_drains_to_filter:
  "(\<exists>r. streamable_ToSlice (streamable_Filter (Streamify S) pred) = Some r
        \<and> elems r = filter pred (elems S)
        \<and> len r = int (length (filter pred (elems S)))
        \<and> len r \<le> len S)
   \<and> (0 \<le> n \<longrightarrow>
        (\<exists>b p r. StreamifyWithBuffer S n = Inr b
           \<and> bufferedStream_Filter b pred = Inr p
           \<and> bufferedStream_ToSlice p = Some r
           \<and> elems r = filter pred (elems S)
           \<and> len r = int (length (filter pred (elems S)))
           \<and> len r \<le> len S))"
proof (intro conjI impI)
  let ?r = "collect_loop (filter pred (elems S)) Nil_slice"
  have r: "elems ?r = filter pred (elems S)"
    by (simp add: elems_collect_loop)
  have *: "elems ?r = filter pred (elems S)
           \<and> len ?r = int (length (filter pred (elems S))) \<and> len ?r \<le> len S"
    by (simp add: len_def r)
  have "streamable_ToSlice (streamable_Filter (Streamify S) pred) = Some ?r"
    by (simp add: streamable_ToSlice_def streamable_Filter_stream Streamify_stream)
  with * show "\<exists>r. streamable_ToSlice (streamable_Filter (Streamify S) pred) = Some r
        \<and> elems r = filter pred (elems S)
        \<and> len r = int (length (filter pred (elems S)))
        \<and> len r \<le> len S"
    by blast
  assume n: "0 \<le> n"
  let ?b = "\<lparr>bufferedStream.stream = \<lparr>sent = elems S, capacity = n, closed = True\<rparr>,
             BufferSize = n\<rparr>"
  let ?p = "\<lparr>bufferedStream.stream =
               \<lparr>sent = filter pred (elems S), capacity = n, closed = True\<rparr>,
             BufferSize = n\<rparr>"
  have b: "StreamifyWithBuffer S n = Inr ?b"
    using n by (rule StreamifyWithBuffer_ok)
  have p: "bufferedStream_Filter ?b pred = Inr ?p"
    using n by (simp add: bufferedStream_Filter_ok)
  have d: "bufferedStream_ToSlice ?p = Some ?r"
    by (simp add: bufferedStream_ToSlice_def)
  from b p d * show "\<exists>b p r. StreamifyWithBuffer S n = Inr b
           \<and> bufferedStream_Filter b pred = Inr p
           \<and> bufferedStream_ToSlice p = Some r
           \<and> elems r = filter pred (elems S)
           \<and> len r = int (length (filter pred (elems S)))
           \<and> len r \<le> len S"
    by blast
qed

theorem Filter_drains_to_filter_witness:
  "(0::int) \<le> 2
   \<and> map_option elems
        (streamable_ToSlice
          (streamable_Filter (Streamify (Items [1, 2, 3, 4 :: int])) (\<lambda>x. x mod 2 = 0)))
      = Some [2, 4]
   \<and> (\<exists>b p. StreamifyWithBuffer (Items [1, 2, 3, 4 :: int]) 2 = Inr b
         \<and> bufferedStream_Filter b (\<lambda>x. x mod 2 = 0) = Inr p
         \<and> map_option elems (bufferedStream_ToSlice p) = Some [2, 4]
         \<and> map_option len (bufferedStream_ToSlice p) = Some 2)"
  using Filter_drains_to_filter [of "Items [1, 2, 3, 4 :: int]" "\<lambda>x. x mod 2 = 0" 2]
  by auto

section \<open>Conversions between the two pipelines\<close>

lemma bufferedStream_ToStream_stream:
  "streamable.stream (bufferedStream_ToStream s) =
     \<lparr>sent = sent (bufferedStream.stream s), capacity = 0,
      closed = closed (bufferedStream.stream s)\<rparr>"
  by (simp add: bufferedStream_ToStream_def Let_def make_chan_def send_items_eq close_after_def
      close_chan_def)

lemma streamable_ToBufferedStream_ok:
  "0 \<le> n \<Longrightarrow>
   streamable_ToBufferedStream s n =
     Inr \<lparr>bufferedStream.stream =
            \<lparr>sent = sent (streamable.stream s), capacity = n,
             closed = closed (streamable.stream s)\<rparr>,
          BufferSize = 0\<rparr>"
  by (simp add: streamable_ToBufferedStream_def make_chan_sized_ok and_then_Inr send_items_eq
      close_after_def close_chan_def)

lemma iterable_ToBufferedStream_ok:
  "0 \<le> n \<Longrightarrow>
   iterable_ToBufferedStream c n =
     Inr \<lparr>bufferedStream.stream = \<lparr>sent = elems (items c), capacity = n, closed = True\<rparr>,
          BufferSize = 0\<rparr>"
  by (simp add: iterable_ToBufferedStream_def make_chan_sized_ok and_then_Inr send_items_eq
      close_chan_def)

text \<open>
  Claim C3. Round-trip conversion is the identity on the element sequence: for every
  buffered pipeline \<open>P\<close> and every capacity \<open>C \<ge> 0\<close>, ToBufferedStream(C) applied to
  ToStream() of \<open>P\<close> returns a buffered pipeline \<open>Q\<close> (no panic), and draining \<open>Q\<close> with
  ToSlice gives what draining \<open>P\<close> gives: the call returns for \<open>Q\<close> exactly when it
  returns for \<open>P\<close>, that is when the channel of \<open>P\<close> is closed, and the two slices
  returned are equal.
\<close>

theorem round_trip_drains_equal:
  "0 \<le> C \<Longrightarrow>
   \<exists>Q. streamable_ToBufferedStream (bufferedStream_ToStream P) C = Inr Q
       \<and> bufferedStream_ToSlice Q = bufferedStream_ToSlice P
       \<and> (bufferedStream_ToSlice P \<noteq> None) = closed (bufferedStream.stream P)"
  by (simp add: streamable_ToBufferedStream_ok bufferedStream_ToStream_stream
      bufferedStream_ToSlice_def)

theorem round_trip_drains_equal_witness:
  "(0::int) \<le> 5
   \<and> (\<exists>P Q. StreamifyWithBuffer (Items [1, 2, 3, 4 :: int]) 2 = Inr P
         \<and> streamable_ToBufferedStream (bufferedStream_ToStream P) 5 = Inr Q
         \<and> bufferedStream_ToSlice P = Some (Items [1, 2, 3, 4])
         \<and> bufferedStream_ToSlice Q = Some (Items [1, 2, 3, 4]))"
proof -
  let ?P = "\<lparr>bufferedStream.stream = \<lparr>sent = [1, 2, 3, 4 :: int], capacity = 2, closed = True\<rparr>,
             BufferSize = 2\<rparr>"
  have P: "StreamifyWithBuffer (Items [1, 2, 3, 4 :: int]) 2 = Inr ?P"
    by (simp add: StreamifyWithBuffer_ok)
  have d: "bufferedStream_ToSlice ?P = Some (Items [1, 2, 3, 4])"
    by (simp add: bufferedStream_ToSlice_def append1_def)
  from round_trip_drains_equal [of 5 ?P]
  obtain Q where "streamable_ToBufferedStream (bufferedStream_ToStream ?P) 5 = Inr Q"
    and "bufferedStream_ToSlice Q = bufferedStream_ToSlice ?P"
    by auto
  with P d show ?thesis
    by auto
qed

section \<open>Recast\<close>

lemma RecastStream_stream:
  "streamable.stream (RecastStream T s) =
     \<lparr>sent = filter (\<lambda>v. dyn_type v = Some T) (sent (streamable.stream s)), capacity = 0,
      closed = closed (streamable.stream s)\<rparr>"
  by (simp add: RecastStream_def Let_def make_chan_def recast_loop_eq close_after_def
      close_chan_def)

lemma RecastBufferedStream_ok:
  "0 \<le> BufferSize s \<Longrightarrow>
   RecastBufferedStream T s =
     Inr \<lparr>bufferedStream.stream =
            \<lparr>sent = filter (\<lambda>v. dyn_type v = Some T) (sent (bufferedStream.stream s)),
             capacity = BufferSize s, closed = closed (bufferedStream.stream s)\<rparr>,
          BufferSize = BufferSize s\<rparr>"
  by (simp add: RecastBufferedStream_def make_chan_sized_ok and_then_Inr recast_loop_eq
      close_after_def close_chan_def)

text \<open>
  Claim C5. For every dynamically typed pipeline and every concrete target type \<open>T\<close>,
  draining the recast pipeline gives exactly the elements of the drained source whose
  runtime type is \<open>T\<close>, in their original relative order; every other element (the nil
  interface included) is absent from the output. The recast returns a plain pipeline:
  RecastStream has no error result, RecastBufferedStream returns \<open>Inr\<close> whenever the
  buffer size of its argument is not negative, and neither reports what was dropped.
  Draining the recast pipeline returns exactly when draining the source does.
\<close>

theorem Recast_keeps_matching:
  "map_option elems (streamable_ToSlice (RecastStream T s))
     = map_option (\<lambda>r. filter (\<lambda>v. dyn_type v = Some T) (elems r)) (streamable_ToSlice s)
   \<and> (0 \<le> BufferSize b \<longrightarrow>
        (\<exists>q. RecastBufferedStream T b = Inr q
           \<and> map_option elems (bufferedStream_ToSlice q)
             = map_option (\<lambda>r. filter (\<lambda>v. dyn_type v = Some T) (elems r))
                 (bufferedStream_ToSlice b)))"
  by (simp add: streamable_ToSlice_def bufferedStream_ToSlice_def RecastStream_stream
      RecastBufferedStream_ok elems_collect_loop)

theorem Recast_keeps_matching_witness:
  "(0::int) \<le> 2
   \<and> map_option elems
        (streamable_ToSlice
          (RecastStream Int_type
            (Streamify (Items [Int_val 1, String_val ''a'', Int_val 2, Nil_val, Bool_val True,
                               String_val ''b'', Int_val 3]))))
      = Some [Int_val 1, Int_val 2, Int_val 3]
   \<and> (\<exists>b q. StreamifyWithBuffer
                (Items [Int_val 1, String_val ''a'', Int_val 2, Nil_val, Bool_val True,
                        String_val ''b'', Int_val 3]) 2 = Inr b
         \<and> RecastBufferedStream String_type b = Inr q
         \<and> map_option elems (bufferedStream_ToSlice q) = Some [String_val ''a'', String_val ''b''])"
proof -
  let ?S = "Items [Int_val 1, String_val ''a'', Int_val 2, Nil_val, Bool_val True,
                   String_val ''b'', Int_val 3]"
  let ?b = "\<lparr>bufferedStream.stream = \<lparr>sent = elems ?S, capacity = 2, closed = True\<rparr>,
             BufferSize = 2\<rparr>"
  have b: "StreamifyWithBuffer ?S 2 = Inr ?b"
    by (simp add: StreamifyWithBuffer_ok)
  have ds: "map_option elems (streamable_ToSlice (Streamify ?S)) = Some (elems ?S)"
    by (simp add: streamable_ToSlice_def Streamify_stream append1_def)
  have db: "map_option elems (bufferedStream_ToSlice ?b) = Some (elems ?S)"
    by (simp add: bufferedStream_ToSlice_def append1_def)
  have 1: "map_option elems (streamable_ToSlice (RecastStream Int_type (Streamify ?S)))
           = Some [Int_val 1, Int_val 2, Int_val 3]"
    using Recast_keeps_matching [of Int_type "Streamify ?S" ?b] ds
    by (auto simp: map_option_case split: option.splits)
  have 2: "\<exists>q. RecastBufferedStream String_type ?b = Inr q
         \<and> map_option elems (bufferedStream_ToSlice q) = Some [String_val ''a'', String_val ''b'']"
    using Recast_keeps_matching [of String_type "Streamify ?S" ?b] db
    by (auto simp: map_option_case split: option.splits)
  from b 1 2 show ?thesis
    by auto
qed

section \<open>Buffer sizes\<close>

text \<open>
  Pipe, Filter and RecastBufferedStream size their channel by the \<open>BufferSize\<close> field
  of their argument, not by the capacity of the channel it wraps, and copy the field.
\<close>

lemma chained_stages_use_BufferSize_field:
  "0 \<le> BufferSize s \<Longrightarrow> 0 \<le> BufferSize d \<Longrightarrow>
   (\<exists>p. bufferedStream_Pipe s fn = Inr p
        \<and> capacity (bufferedStream.stream p) = BufferSize s \<and> BufferSize p = BufferSize s)
   \<and> (\<exists>p. bufferedStream_Filter s pred = Inr p
        \<and> capacity (bufferedStream.stream p) = BufferSize s \<and> BufferSize p = BufferSize s)
   \<and> (\<exists>p. RecastBufferedStream T d = Inr p
        \<and> capacity (bufferedStream.stream p) = BufferSize d \<and> BufferSize p = BufferSize d)"
  by (simp add: bufferedStream_Pipe_ok bufferedStream_Filter_ok RecastBufferedStream_ok)

text \<open>
  The constructors StreamifyWithBuffer and CreateBufferedStream set the field to the
  capacity of the channel they make, so a stage chained on their pipelines does keep the
  capacity.
\<close>

lemma constructors_set_BufferSize_to_capacity:
  "0 \<le> n \<Longrightarrow>
   (\<exists>b. StreamifyWithBuffer S n = Inr b
        \<and> capacity (bufferedStream.stream b) = n \<and> BufferSize b = n)
   \<and> (\<exists>b. CreateBufferedStream (sending vs) n = Inr b
        \<and> capacity (bufferedStream.stream b) = n \<and> BufferSize b = n)"
  by (simp add: StreamifyWithBuffer_ok CreateBufferedStream_sending)

text \<open>
  Claim C9 says that every operation chained on a buffered pipeline preserves its
  capacity: the pipelines returned by Pipe, Filter and RecastBufferedStream wrap a channel
  made with the capacity \<open>C\<close> of the pipeline they are chained on, and carry
  \<open>BufferSize = C\<close>. The code breaks this for a pipeline made by ToBufferedStream, which
  leaves the field unset: \<open>Streamify(S).ToBufferedStream(5)\<close> wraps a channel of capacity
  5 with \<open>BufferSize = 0\<close>, and each of Pipe, Filter and RecastBufferedStream chained on
  it returns a pipeline whose channel has capacity 0 and whose \<open>BufferSize\<close> is 0.
\<close>

theorem stage_after_ToBufferedStream_drops_capacity:
  "streamable_ToBufferedStream
     (Streamify (Items [Int_val 1, String_val ''a'', Int_val 2])) 5
     = Inr \<lparr>bufferedStream.stream =
              \<lparr>sent = [Int_val 1, String_val ''a'', Int_val 2], capacity = 5, closed = True\<rparr>,
            BufferSize = 0\<rparr>
   \<and> bufferedStream_Pipe
       \<lparr>bufferedStream.stream =
          \<lparr>sent = [Int_val 1, String_val ''a'', Int_val 2], capacity = 5, closed = True\<rparr>,
        BufferSize = 0\<rparr> id
     = Inr \<lparr>bufferedStream.stream =
              \<lparr>sent = [Int_val 1, String_val ''a'', Int_val 2], capacity = 0, closed = True\<rparr>,
            BufferSize = 0\<rparr>
   \<and> bufferedStream_Filter
       \<lparr>bufferedStream.stream =
          \<lparr>sent = [Int_val 1, String_val ''a'', Int_val 2], capacity = 5, closed = True\<rparr>,
        BufferSize = 0\<rparr> ((\<noteq>) Nil_val)
     = Inr \<lparr>bufferedStream.stream =
              \<lparr>sent = [Int_val 1, String_val ''a'', Int_val 2], capacity = 0, closed = True\<rparr>,
            BufferSize = 0\<rparr>
   \<and> RecastBufferedStream Int_type
       \<lparr>bufferedStream.stream =
          \<lparr>sent = [Int_val 1, String_val ''a'', Int_val 2], capacity = 5, closed = True\<rparr>,
        BufferSize = 0\<rparr>
     = Inr \<lparr>bufferedStream.stream =
              \<lparr>sent = [Int_val 1, Int_val 2], capacity = 0, closed = True\<rparr>,
            BufferSize = 0\<rparr>"
  by (simp add: streamable_ToBufferedStream_ok Streamify_stream bufferedStream_Pipe_ok
      bufferedStream_Filter_ok RecastBufferedStream_ok)

text \<open>
  Claim C10. For every unbuffered stream \<open>s\<close> and every positive \<open>n\<close>, the bufferedStream
  returned by \<open>s.ToBufferedStream(n)\<close>, and likewise the one returned by an iterable's
  \<open>ToBufferedStream(n)\<close>, wraps a channel of capacity \<open>n\<close> but has its \<open>BufferSize\<close> field
  equal to zero, so a Pipe or Filter stage chained on it makes a channel of capacity
  zero (unbuffered) and again carries \<open>BufferSize = 0\<close>.
\<close>

theorem ToBufferedStream_leaves_BufferSize_zero:
  "0 < n \<Longrightarrow>
   (\<exists>b. streamable_ToBufferedStream s n = Inr b
        \<and> capacity (bufferedStream.stream b) = n
        \<and> BufferSize b = 0
        \<and> (\<exists>p. bufferedStream_Pipe b fn = Inr p
              \<and> capacity (bufferedStream.stream p) = 0 \<and> BufferSize p = 0)
        \<and> (\<exists>p. bufferedStream_Filter b pred = Inr p
              \<and> capacity (bufferedStream.stream p) = 0 \<and> BufferSize p = 0))
   \<and> (\<exists>b. iterable_ToBufferedStream c n = Inr b
        \<and> capacity (bufferedStream.stream b) = n
        \<and> BufferSize b = 0
        \<and> (\<exists>p. bufferedStream_Pipe b fn = Inr p
              \<and> capacity (bufferedStream.stream p) = 0 \<and> BufferSize p = 0)
        \<and> (\<exists>p. bufferedStream_Filter b pred = Inr p
              \<and> capacity (bufferedStream.stream p) = 0 \<and> BufferSize p = 0))"
  by (simp add: streamable_ToBufferedStream_ok iterable_ToBufferedStream_ok
      bufferedStream_Pipe_ok bufferedStream_Filter_ok)

theorem ToBufferedStream_leaves_BufferSize_zero_witness:
  "(0::int) < 2
   \<and> (\<exists>b. streamable_ToBufferedStream (Streamify (Items [1, 2, 3, 4 :: int])) 2 = Inr b
        \<and> capacity (bufferedStream.stream b) = 2
        \<and> BufferSize b = 0
        \<and> (\<exists>p. bufferedStream_Pipe b (\<lambda>x. Int_val (word_of_int x)) = Inr p
              \<and> capacity (bufferedStream.stream p) = 0))
   \<and> (\<exists>b. iterable_ToBufferedStream (Slicefy (Items [1, 2, 3, 4 :: int])) 2 = Inr b
        \<and> capacity (bufferedStream.stream b) = 2
        \<and> BufferSize b = 0
        \<and> (\<exists>p. bufferedStream_Filter b (\<lambda>x. 2 < x) = Inr p
              \<and> capacity (bufferedStream.stream p) = 0))"
  using ToBufferedStream_leaves_BufferSize_zero
    [of 2 "Streamify (Items [1, 2, 3, 4 :: int])" "\<lambda>x. Int_val (word_of_int x)" "\<lambda>x. 2 < x"
        "Slicefy (Items [1, 2, 3, 4 :: int])"]
  by auto

section \<open>Sub-range of a slice collection\<close>

lemma take_drop_nth:
  "hi \<le> length xs \<Longrightarrow> take (hi - lo) (drop lo xs) = map (\<lambda>i. xs ! i) [lo..<hi]"
  by (rule sym, rule map_upt_eqI) auto

text \<open>
  Claim C6. For every iterable and every pair of indices with \<open>start > end\<close>, \<open>start < 0\<close>
  or \<open>end > length\<close>, Slice returns an empty iterable (the empty, non-nil slice) rather
  than panicking; for every in-range pair, \<open>0 \<le> start \<le> end \<le> length\<close>, it returns the
  half-open sub-range \<open>items[start:end]\<close>: the elements at the indices \<open>start\<close>, ...,
  \<open>end - 1\<close>, in that order. No pair of indices makes it panic.
\<close>

theorem Slice_empty_or_subrange:
  "(start > end' \<or> start < 0 \<or> end' > len (items c) \<longrightarrow>
      iterable_Slice c start end' = Inr \<lparr>items = Items []\<rparr>)
   \<and> (0 \<le> start \<and> start \<le> end' \<and> end' \<le> len (items c) \<longrightarrow>
        (\<exists>its. iterable_Slice c start end' = Inr \<lparr>items = its\<rparr>
           \<and> elems its = map (\<lambda>i. elems (items c) ! i) [nat start..<nat end']
           \<and> len its = end' - start))
   \<and> (\<forall>p. iterable_Slice c start end' \<noteq> Inl p)"
proof (intro conjI impI allI)
  assume "start > end' \<or> start < 0 \<or> end' > len (items c)"
  then show "iterable_Slice c start end' = Inr \<lparr>items = Items []\<rparr>"
    by (auto simp: iterable_Slice_def)
next
  assume range: "0 \<le> start \<and> start \<le> end' \<and> end' \<le> len (items c)"
  then have hi: "nat end' \<le> length (elems (items c))"
    by (auto simp: len_def)
  from range have diff: "nat (end' - start) = nat end' - nat start"
    by (simp add: nat_diff_distrib)
  have sub: "take (nat (end' - start)) (drop (nat start) (elems (items c)))
             = map (\<lambda>i. elems (items c) ! i) [nat start..<nat end']"
    unfolding diff using hi by (rule take_drop_nth)
  from range have call: "iterable_Slice c start end'
      = and_then (slice_expr (items c) start end') (\<lambda>its. Inr \<lparr>items = its\<rparr>)"
    by (auto simp: iterable_Slice_def)
  show "\<exists>its. iterable_Slice c start end' = Inr \<lparr>items = its\<rparr>
           \<and> elems its = map (\<lambda>i. elems (items c) ! i) [nat start..<nat end']
           \<and> len its = end' - start"
  proof (cases "items c")
    case Nil_slice
    with range call show ?thesis
      by (auto simp: slice_expr_def and_then_def len_def)
  next
    case (Items xs)
    with range have "slice_expr (items c) start end'
        = Inr (Items (take (nat (end' - start)) (drop (nat start) xs)))"
      by (auto simp: slice_expr_def)
    with call sub Items range show ?thesis
      by (auto simp: and_then_def len_def)
  qed
next
  fix p
  show "iterable_Slice c start end' \<noteq> Inl p"
    by (cases "items c") (auto simp: iterable_Slice_def slice_expr_def and_then_def)
qed

theorem Slice_empty_or_subrange_witness:
  "((5::int) > 3 \<or> (5::int) < 0 \<or> 5 > len (items (Slicefy (Items [10, 20, 30, 40 :: int]))))
   \<and> iterable_Slice (Slicefy (Items [10, 20, 30, 40 :: int])) 5 3 = Inr \<lparr>items = Items []\<rparr>
   \<and> ((0::int) \<le> 1 \<and> (1::int) \<le> 3 \<and> 3 \<le> len (items (Slicefy (Items [10, 20, 30, 40 :: int]))))
   \<and> iterable_Slice (Slicefy (Items [10, 20, 30, 40 :: int])) 1 3 = Inr \<lparr>items = Items [20, 30]\<rparr>"
proof -
  let ?c = "Slicefy (Items [10, 20, 30, 40 :: int])"
  have l: "len (items ?c) = 4"
    by (simp add: Slicefy_def len_def)
  have e: "iterable_Slice ?c 5 3 = Inr \<lparr>items = Items []\<rparr>"
    using Slice_empty_or_subrange [where start = 5 and end' = 3 and c = ?c] by simp
  have up: "[nat 1..<nat 3] = [1, 2]"
    by (simp add: upt_rec)
  obtain its where its: "iterable_Slice ?c 1 3 = Inr \<lparr>items = its\<rparr>"
      and el: "elems its = map (\<lambda>i. elems (items ?c) ! i) [nat 1..<nat 3]"
    using Slice_empty_or_subrange [where start = 1 and end' = 3 and c = ?c] l by auto
  from el have "elems its = [20, 30]"
    unfolding up by (simp add: Slicefy_def)
  moreover have "its \<noteq> Nil_slice"
    using its by (auto simp: iterable_Slice_def slice_expr_def and_then_def Slicefy_def len_def)
  ultimately have "its = Items [20, 30]"
    by (cases its) auto
  with its e l show ?thesis
    by simp
qed

section \<open>From-generator construction\<close>

lemma generator_worker_Returns:
  "generator ch = Returns ch' \<Longrightarrow> \<not> closed ch' \<Longrightarrow>
   generator_worker generator ch = Returns (close_chan ch')"
  by (simp add: generator_worker_def)

lemma generator_worker_Panics:
  "generator ch = Panics p ch' \<Longrightarrow> \<not> closed ch' \<Longrightarrow>
   generator_worker generator ch = Panics p (close_chan ch')"
  by (simp add: generator_worker_def)

lemma generator_worker_Never_returns:
  "generator ch = Never_returns ch' \<Longrightarrow>
   generator_worker generator ch = Never_returns ch'"
  by (simp add: generator_worker_def)

text \<open>
  Claim C7 says that the close of the output channel happens only when the generator
  returns normally, and is skipped when it panics. The close is deferred, and a deferred
  call runs during a panic too: after a generator that sends 1 and 2 and then panics, the
  channel holds 1 and 2 and is closed.
\<close>

theorem close_not_skipped_on_panic:
  "generator_worker (sending_then_panic [1, 2 :: int]) make_chan
     = Panics Generator_panic \<lparr>sent = [1, 2], capacity = 0, closed = True\<rparr>"
  by (simp add: generator_worker_def sending_then_panic_def make_chan_def send_def
      close_chan_def)

text \<open>
  Claim C7, amended. In from-generator construction (CreateStream and
  CreateBufferedStream) the close of the output channel is deferred, so it happens when
  the generator returns normally and also when it panics: in both cases a channel that
  the generator left open is closed, holding what the generator sent, and after a panic
  the panic goes on to end the program, so that the constructor's pipeline is lost with
  it. The close is skipped only when the generator never returns.
\<close>

theorem deferred_close_on_return_and_panic:
  "(generator ch = Returns ch' \<and> \<not> closed ch' \<longrightarrow>
      generator_worker generator ch = Returns (close_chan ch'))
   \<and> (generator ch = Panics p ch' \<and> \<not> closed ch' \<longrightarrow>
      generator_worker generator ch = Panics p (close_chan ch'))
   \<and> (generator ch = Never_returns ch' \<longrightarrow>
      generator_worker generator ch = Never_returns ch')
   \<and> closed (close_chan ch') \<and> sent (close_chan ch') = sent ch'
   \<and> (generator make_chan = Panics p ch' \<longrightarrow> CreateStream generator = Inl p)
   \<and> (0 \<le> n \<and> generator \<lparr>sent = [], capacity = n, closed = False\<rparr> = Panics p ch' \<longrightarrow>
      CreateBufferedStream generator n = Inl p)"
proof (intro conjI impI)
  show "closed (close_chan ch')" and "sent (close_chan ch') = sent ch'"
    by (simp_all add: close_chan_def)
next
  assume "generator ch = Returns ch' \<and> \<not> closed ch'"
  then show "generator_worker generator ch = Returns (close_chan ch')"
    by (simp add: generator_worker_Returns)
next
  assume "generator ch = Panics p ch' \<and> \<not> closed ch'"
  then show "generator_worker generator ch = Panics p (close_chan ch')"
    by (simp add: generator_worker_Panics)
next
  assume "generator ch = Never_returns ch'"
  then show "generator_worker generator ch = Never_returns ch'"
    by (rule generator_worker_Never_returns)
next
  assume "generator make_chan = Panics p ch'"
  then show "CreateStream generator = Inl p"
    by (simp add: CreateStream_def Let_def generator_worker_def and_then_def)
next
  assume "0 \<le> n \<and> generator \<lparr>sent = [], capacity = n, closed = False\<rparr> = Panics p ch'"
  then show "CreateBufferedStream generator n = Inl p"
    by (simp add: CreateBufferedStream_def make_chan_sized_ok generator_worker_def and_then_def)
qed

theorem deferred_close_on_return_and_panic_witness:
  "sending [1, 2 :: int] make_chan = Returns \<lparr>sent = [1, 2], capacity = 0, closed = False\<rparr>
   \<and> generator_worker (sending [1, 2 :: int]) make_chan
       = Returns \<lparr>sent = [1, 2], capacity = 0, closed = True\<rparr>
   \<and> sending_then_panic [1, 2 :: int] make_chan
       = Panics Generator_panic \<lparr>sent = [1, 2], capacity = 0, closed = False\<rparr>
   \<and> generator_worker (sending_then_panic [1, 2 :: int]) make_chan
       = Panics Generator_panic \<lparr>sent = [1, 2], capacity = 0, closed = True\<rparr>
   \<and> CreateStream (sending_then_panic [1, 2 :: int]) = Inl Generator_panic
   \<and> (0::int) \<le> 3
   \<and> CreateBufferedStream (sending_then_panic [1, 2 :: int]) 3 = Inl Generator_panic"
proof -
  let ?open = "\<lparr>sent = [1, 2 :: int], capacity = 0, closed = False\<rparr>"
  let ?open3 = "\<lparr>sent = [1, 2 :: int], capacity = 3, closed = False\<rparr>"
  have r: "sending [1, 2 :: int] make_chan = Returns ?open"
    by (simp add: sending_def make_chan_def send_def)
  have p: "sending_then_panic [1, 2 :: int] make_chan = Panics Generator_panic ?open"
    by (simp add: sending_then_panic_def make_chan_def send_def)
  have p3: "sending_then_panic [1, 2 :: int] \<lparr>sent = [], capacity = 3, closed = False\<rparr>
            = Panics Generator_panic ?open3"
    by (simp add: sending_then_panic_def send_def)
  have c: "close_chan ?open = \<lparr>sent = [1, 2], capacity = 0, closed = True\<rparr>"
    by (simp add: close_chan_def)
  from deferred_close_on_return_and_panic
    [where generator = "sending [1, 2 :: int]" and ch = make_chan and ch' = ?open] r
  have 1: "generator_worker (sending [1, 2 :: int]) make_chan = Returns (close_chan ?open)"
    by simp
  from deferred_close_on_return_and_panic
    [where generator = "sending_then_panic [1, 2 :: int]" and ch = make_chan and ch' = ?open
       and p = Generator_panic] p
  have 2: "generator_worker (sending_then_panic [1, 2 :: int]) make_chan
             = Panics Generator_panic (close_chan ?open)"
    and 3: "CreateStream (sending_then_panic [1, 2 :: int]) = Inl Generator_panic"
    by simp_all
  from deferred_close_on_return_and_panic
    [where generator = "sending_then_panic [1, 2 :: int]" and ch' = ?open3 and n = 3
       and p = Generator_panic] p3
  have 4: "CreateBufferedStream (sending_then_panic [1, 2 :: int]) 3 = Inl Generator_panic"
    by simp
  from r p 1 2 3 4 show ?thesis
    unfolding c by simp
qed

section \<open>Empty sources\<close>

text \<open>
  Claim C4 says that draining a pipeline built from an empty slice, or from a generator
  that sends nothing, returns an empty sequence and never a null value. ToSlice starts
  from \<^verbatim>\<open>var result []InputType\<close>, which is nil, and appends nothing: for the empty
  slice \<^verbatim>\<open>[]int{}\<close>, and for the generator that returns at once, what it returns is nil.
\<close>

theorem ToSlice_of_empty_source_is_nil:
  "streamable_ToSlice (Streamify (Items ([] :: int list))) = Some Nil_slice
   \<and> CreateStream (sending ([] :: int list))
       = Inr \<lparr>streamable.stream = \<lparr>sent = [], capacity = 0, closed = True\<rparr>\<rparr>
   \<and> streamable_ToSlice \<lparr>streamable.stream = \<lparr>sent = ([] :: int list), capacity = 0, closed = True\<rparr>\<rparr>
       = Some Nil_slice
   \<and> is_nil (Nil_slice :: int goslice)"
  by (simp add: streamable_ToSlice_def Streamify_stream CreateStream_sending)

text \<open>
  Claim C4, amended. Draining with ToSlice a pipeline built from a slice without
  elements (nil or empty), or from a generator that returns without sending, returns,
  and what it returns is the nil slice: a slice of length zero, with no elements, that
  is Go's nil value and not an allocated empty slice. This holds for the unbuffered and,
  for every capacity \<open>n \<ge> 0\<close>, for the buffered pipeline.
\<close>

theorem empty_source_drains_to_nil_slice:
  "elems (S :: 'a goslice) = [] \<and> 0 \<le> n
   \<and> (\<forall>ch. (generator :: 'a generator) ch = Returns ch) \<Longrightarrow>
   streamable_ToSlice (Streamify S) = Some Nil_slice
   \<and> (\<exists>b. StreamifyWithBuffer S n = Inr b \<and> bufferedStream_ToSlice b = Some Nil_slice)
   \<and> (\<exists>s. CreateStream generator = Inr s \<and> streamable_ToSlice s = Some Nil_slice)
   \<and> (\<exists>b. CreateBufferedStream generator n = Inr b \<and> bufferedStream_ToSlice b = Some Nil_slice)
   \<and> is_nil (Nil_slice :: 'a goslice)
   \<and> len (Nil_slice :: 'a goslice) = 0
   \<and> elems (Nil_slice :: 'a goslice) = []"
proof -
  assume a: "elems S = [] \<and> 0 \<le> n \<and> (\<forall>ch. generator ch = Returns ch)"
  then have g: "\<And>ch. generator ch = Returns ch"
    by simp
  have 1: "streamable_ToSlice (Streamify S) = Some Nil_slice"
    using a by (simp add: streamable_ToSlice_def Streamify_stream)
  have 2: "\<exists>b. StreamifyWithBuffer S n = Inr b \<and> bufferedStream_ToSlice b = Some Nil_slice"
    using a by (simp add: StreamifyWithBuffer_ok bufferedStream_ToSlice_def)
  have 3: "\<exists>s. CreateStream generator = Inr s \<and> streamable_ToSlice s = Some Nil_slice"
    by (simp add: CreateStream_def Let_def generator_worker_def g make_chan_def close_chan_def
        and_then_def streamable_ToSlice_def)
  have 4: "\<exists>b. CreateBufferedStream generator n = Inr b
                \<and> bufferedStream_ToSlice b = Some Nil_slice"
    using a by (simp add: CreateBufferedStream_def make_chan_sized_ok generator_worker_def g
        close_chan_def and_then_def bufferedStream_ToSlice_def)
  from 1 2 3 4 show ?thesis
    by (simp add: len_def)
qed

theorem empty_source_drains_to_nil_slice_witness:
  "elems (Items ([] :: int list)) = [] \<and> (0::int) \<le> 2
   \<and> sending ([] :: int list) make_chan = Returns make_chan
   \<and> streamable_ToSlice (Streamify (Items ([] :: int list))) = Some Nil_slice
   \<and> (\<exists>b. StreamifyWithBuffer (Items ([] :: int list)) 2 = Inr b
         \<and> bufferedStream_ToSlice b = Some Nil_slice)
   \<and> (\<exists>s. CreateStream (sending ([] :: int list)) = Inr s
         \<and> streamable_ToSlice s = Some Nil_slice)
   \<and> (\<exists>b. CreateBufferedStream (sending ([] :: int list)) 2 = Inr b
         \<and> bufferedStream_ToSlice b = Some Nil_slice)"
proof -
  have g: "sending ([] :: int list) make_chan = Returns make_chan"
    by (simp add: sending_def)
  have "elems (Items ([] :: int list)) = [] \<and> (0::int) \<le> 2
        \<and> (\<forall>ch. sending ([] :: int list) ch = Returns ch)"
    by (simp add: sending_def)
  from empty_source_drains_to_nil_slice [OF this] g show ?thesis
    by simp
qed

end
